theory Spec2Isabelle
  imports Main "HOL-Library.Sublist"
begin

section \<open>Data model\<close>

text \<open>
  \<^verbatim>\<open>ChatMessage\<close> of \<^verbatim>\<open>src/models/chat.py\<close>: a role and a content, both
  Python strings. Strings are modelled as lists of characters; a character stands for a
  code point below 256.
\<close>

record ChatMessage =
  role :: string
  content :: string

text \<open>The exceptions of Python that the modelled code can raise by itself.\<close>

datatype py_error =
    AttributeError string
  | IndexError
  | ValueError
  | ValidationError
  | RecursionError

text \<open>Python's slice \<^verbatim>\<open>xs[a:b]\<close> for integer bounds, negative ones counting from the end.\<close>

definition slice_bound :: "nat \<Rightarrow> int \<Rightarrow> nat" where
  "slice_bound n k = (if k < 0 then nat (max (k + int n) 0) else min (nat k) n)"

definition py_slice :: "'a list \<Rightarrow> int \<Rightarrow> int \<Rightarrow> 'a list" where
  "py_slice xs a b =
     (let lo = slice_bound (length xs) a; hi = slice_bound (length xs) b
      in take (hi - lo) (drop lo xs))"

section \<open>Chunker: \<^verbatim>\<open>OllamaProcessor._create_overlapping_chunks\<close>\<close>

text \<open>The metadata dictionary of a chunk, with its four fixed keys.\<close>

record chunk_meta =
  index :: int
  total :: int
  is_first :: bool
  is_last :: bool

text \<open>
  One iteration of the loop \<^verbatim>\<open>for i in range(0, len(messages), chunk_size - overlap)\<close>
  on the accumulated \<^verbatim>\<open>chunks\<close> and \<^verbatim>\<open>metadata\<close>. The merge branch is only taken
  when \<^verbatim>\<open>chunks\<close> is not empty; \<^verbatim>\<open>metadata\<close> then is not empty either, the two
  lists growing together.
\<close>

definition chunk_step ::
  "ChatMessage list \<Rightarrow> int \<Rightarrow> int \<Rightarrow> int \<Rightarrow> ChatMessage list list \<times> chunk_meta list
     \<Rightarrow> ChatMessage list list \<times> chunk_meta list" where
  "chunk_step messages chunk_size overlap i acc =
     (let chunks = fst acc; metadata = snd acc;
          end_idx = min (i + chunk_size) (int (length messages))
      in if end_idx - i < chunk_size div 2 \<and> chunks \<noteq> []
         then (butlast chunks @ [last chunks @ py_slice messages i end_idx],
               butlast metadata @ [(last metadata)\<lparr>is_last := True\<rparr>])
         else (chunks @ [py_slice messages i end_idx],
               metadata @ [\<lparr>index = int (length chunks),
                             total = (int (length messages) - 1) div (chunk_size - overlap) + 1,
                             is_first = (i = 0),
                             is_last = (end_idx = int (length messages))\<rparr>]))"

function chunk_loop ::
  "ChatMessage list \<Rightarrow> int \<Rightarrow> int \<Rightarrow> int \<Rightarrow> ChatMessage list list \<times> chunk_meta list
     \<Rightarrow> ChatMessage list list \<times> chunk_meta list" where
  "chunk_loop messages chunk_size overlap i acc =
     (if 0 < chunk_size - overlap \<and> i < int (length messages)
      then chunk_loop messages chunk_size overlap (i + (chunk_size - overlap))
             (chunk_step messages chunk_size overlap i acc)
      else acc)"
  by pat_completeness auto
termination
  by (relation "measure (\<lambda>(messages, chunk_size, overlap, i, acc). nat (int (length messages) - i))")
     auto

text \<open>
  \<^verbatim>\<open>range\<close> raises \<^verbatim>\<open>ValueError\<close> for a step of zero and is empty for a negative step.
\<close>

definition create_overlapping_chunks ::
  "ChatMessage list \<Rightarrow> int \<Rightarrow> int \<Rightarrow> py_error + ChatMessage list list \<times> chunk_meta list" where
  "create_overlapping_chunks messages chunk_size overlap =
     (if int (length messages) \<le> chunk_size
      then Inr ([messages], [\<lparr>index = 0, total = 1, is_first = True, is_last = True\<rparr>])
      else if chunk_size - overlap = 0 then Inl ValueError
      else Inr (chunk_loop messages chunk_size overlap 0 ([], [])))"

section \<open>Strings of Python\<close>

text \<open>
  \<^verbatim>\<open>str.isspace\<close> on the code points below 256; it is also the class \<^verbatim>\<open>\s\<close> of the
  module \<^verbatim>\<open>re\<close> on \<^verbatim>\<open>str\<close> patterns and what \<^verbatim>\<open>str.strip()\<close> removes.
\<close>

definition is_space :: "char \<Rightarrow> bool" where
  "is_space c =
     (let n = of_char c :: nat
      in (9 \<le> n \<and> n \<le> 13) \<or> (28 \<le> n \<and> n \<le> 32) \<or> n = 133 \<or> n = 160)"

text \<open>The class \<^verbatim>\<open>\w\<close>: alphanumeric code points and the underscore.\<close>

definition is_word :: "char \<Rightarrow> bool" where
  "is_word c =
     (let n = of_char c :: nat
      in (48 \<le> n \<and> n \<le> 57) \<or> (65 \<le> n \<and> n \<le> 90) \<or> n = 95 \<or> (97 \<le> n \<and> n \<le> 122)
         \<or> n = 170 \<or> n = 178 \<or> n = 179 \<or> n = 181 \<or> n = 185 \<or> n = 186
         \<or> (188 \<le> n \<and> n \<le> 190) \<or> (192 \<le> n \<and> n \<le> 214) \<or> (216 \<le> n \<and> n \<le> 246)
         \<or> 248 \<le> n)"

abbreviation nl :: char where
  "nl \<equiv> CHR 0x0A"

definition strip :: "string \<Rightarrow> string" where
  "strip s = rev (dropWhile is_space (rev (dropWhile is_space s)))"

text \<open>\<^verbatim>\<open>s.split(c)\<close> for a separator of one character: never an empty list.\<close>

function split_on :: "char \<Rightarrow> string \<Rightarrow> string list" where
  "split_on c s =
     takeWhile (\<lambda>x. x \<noteq> c) s #
     (case dropWhile (\<lambda>x. x \<noteq> c) s of [] \<Rightarrow> [] | _ # rest \<Rightarrow> split_on c rest)"
  by pat_completeness auto
termination
proof (relation "measure (\<lambda>(c, s). length s)")
  show "wf (measure (\<lambda>(c, s). length s))"
    by simp
next
  fix c :: char and s :: string and x rest
  assume "dropWhile (\<lambda>x. x \<noteq> c) s = x # rest"
  then have "length rest < length (dropWhile (\<lambda>x. x \<noteq> c) s)"
    by simp
  also have "\<dots> \<le> length s"
    by (rule length_dropWhile_le)
  finally show "((c, rest), (c, s)) \<in> measure (\<lambda>(c, s). length s)"
    by simp
qed

declare split_on.simps [simp del]

text \<open>\<^verbatim>\<open>sep.join(parts)\<close>.\<close>

fun join :: "string \<Rightarrow> string list \<Rightarrow> string" where
  "join sep [] = []"
| "join sep [p] = p"
| "join sep (p # q # ps) = p @ sep @ join sep (q # ps)"

text \<open>\<^verbatim>\<open>s.startswith(p)\<close> and the substring test \<^verbatim>\<open>sub in s\<close>.\<close>

fun startswith :: "string \<Rightarrow> string \<Rightarrow> bool" where
  "startswith s [] = True"
| "startswith [] (p # ps) = False"
| "startswith (c # cs) (p # ps) = (c = p \<and> startswith cs ps)"

fun contains :: "string \<Rightarrow> string \<Rightarrow> bool" where
  "contains [] sub = (sub = [])"
| "contains (c # cs) sub = (startswith (c # cs) sub \<or> contains cs sub)"

section \<open>Regular expressions of the parser\<close>

text \<open>
  The patterns of \<^verbatim>\<open>chat_parser.py\<close> are sequences of groups of literal alternatives,
  anchored at a position. A letter of a pattern compiled with \<^verbatim>\<open>re.IGNORECASE\<close>
  matches its two cases; all letters of the patterns are ASCII letters.
\<close>

definition lower_char :: "char \<Rightarrow> char" where
  "lower_char c =
     (let n = of_char c :: nat in if 65 \<le> n \<and> n \<le> 90 then char_of (n + 32) else c)"

text \<open>A literal at the start of the text; \<open>ci\<close> says whether case is ignored.\<close>

fun lit_match :: "bool \<Rightarrow> string \<Rightarrow> string \<Rightarrow> bool" where
  "lit_match ci [] s = True"
| "lit_match ci (p # ps) [] = False"
| "lit_match ci (p # ps) (c # cs) =
     ((if ci then lower_char c = lower_char p else c = p) \<and> lit_match ci ps cs)"

text \<open>
  A sequence of groups at the start of the text: some choice of one alternative per
  group, concatenated, is a prefix of the text (the backtracking of the matcher tries
  every choice).
\<close>

fun seq_match :: "bool \<Rightarrow> string list list \<Rightarrow> string \<Rightarrow> bool" where
  "seq_match ci [] s = True"
| "seq_match ci (alts # groups) s =
     list_ex (\<lambda>a. lit_match ci a s \<and> seq_match ci groups (drop (length a) s)) alts"

text \<open>
  A group of alternatives followed by a character of a class: the first alternative, in
  the order of the pattern, that is at the start of the text and is followed by such a
  character; what follows the alternative is returned.
\<close>

fun alt_then_class :: "bool \<Rightarrow> string list \<Rightarrow> (char \<Rightarrow> bool) \<Rightarrow> string \<Rightarrow> (string \<times> string) option" where
  "alt_then_class ci [] cls s = None"
| "alt_then_class ci (a # alts) cls s =
     (if lit_match ci a s \<and> (case drop (length a) s of [] \<Rightarrow> False | c # _ \<Rightarrow> cls c)
      then Some (take (length a) s, drop (length a) s)
      else alt_then_class ci alts cls s)"

section \<open>Generic strategy: \<^verbatim>\<open>ChatParser._parse_generic_format\<close>\<close>

text \<open>The class \<^verbatim>\<open>[\s:]\<close> that follows an explicit label.\<close>

definition label_class :: "char \<Rightarrow> bool" where
  "label_class c = (is_space c \<or> c = CHR '':'')"

definition user_labels :: "string list" where
  "user_labels = [''User'', ''Human'', ''Me'', ''I'']"

definition assistant_labels :: "string list" where
  "assistant_labels = [''AI'', ''Assistant'', ''Bot'', ''ChatGPT'', ''Claude'', ''Gemini'']"

text \<open>The list \<^verbatim>\<open>ai_patterns\<close>, every pattern anchored at the start of the line.\<close>

definition ai_patterns :: "string list list list" where
  "ai_patterns =
     [[[''I'm ''], [''sorry'', ''afraid'', ''happy to'']],
      [[''As ''], [''an'', ''a''], ['' ''], [''AI'', ''assistant'', ''language model'']],
      [[''Let me ''], [''explain'', ''show'', ''help'']],
      [[''Here''], [CHR 0x27 # ''s'', '' is''], ['' ''], [''how'', ''what'', ''why'', ''an example'']],
      [[''Certainly!'']], [[''Of course!'']], [[''Sure thing!'']],
      [[''The best way to'']], [[''Let's go step by step'']],
      [[''Based on ''], [''my knowledge'', ''your request'', ''the data'']],
      [[''To summarize'']], [[''Thank you for your question'']]]"

text \<open>
  The list \<^verbatim>\<open>user_patterns\<close> without its first entry \<^verbatim>\<open>\?$\<close>, which is
  \<open>ends_with_question\<close>: a question mark at the end of the line or before a newline
  that ends it.
\<close>

definition user_patterns :: "string list list list" where
  "user_patterns =
     [[[''Can'', ''Could'', ''How'', ''What'', ''Why'', ''When'', ''Where'', ''Is'', ''Are'', ''Do'',
        ''Does'', ''Will'', ''Would'', ''Should''], ['' '']],
      [[''Please '']], [[''Tell me '']],
      [[''I ''], [''need'', ''want'', ''would like'', ''am trying to'']],
      [[''Write'', ''Create'', ''Generate'', ''Explain'', ''Summarize'', ''Analyze'']],
      [[''Claude'', ''ChatGPT'', ''Gemini'', ''Assistant'', ''AI''], ['','']]]"

definition ends_with_question :: "string \<Rightarrow> bool" where
  "ends_with_question s =
     (case rev s of
        [] \<Rightarrow> False
      | c # before \<Rightarrow>
          c = CHR ''?'' \<or> (c = nl \<and> (case before of [] \<Rightarrow> False | d # _ \<Rightarrow> d = CHR ''?'')))"

text \<open>The inner function \<^verbatim>\<open>detect_role_change\<close>; \<open>None\<close> is Python's \<^verbatim>\<open>None\<close>.\<close>

definition detect_role_change :: "string \<Rightarrow> string option" where
  "detect_role_change line =
     (if alt_then_class True user_labels label_class line \<noteq> None then Some ''user''
      else if alt_then_class True assistant_labels label_class line \<noteq> None then Some ''assistant''
      else if list_ex (\<lambda>p. seq_match True p line) ai_patterns then Some ''assistant''
      else if ends_with_question line \<or> list_ex (\<lambda>p. seq_match True p line) user_patterns
        then Some ''user''
      else None)"

text \<open>
  \<^verbatim>\<open>role_prefix_match.group(2)\<close>: what follows the label and the longest run of
  \<^verbatim>\<open>[\s:]\<close> after it. The pattern ends in \<^verbatim>\<open>(.*)$\<close>, which takes the whole rest of a
  line without newline; the lines come from \<^verbatim>\<open>content.split('\n')\<close> and hold none.
\<close>

definition role_prefix_match :: "string \<Rightarrow> string option" where
  "role_prefix_match line =
     (case alt_then_class True (user_labels @ assistant_labels) label_class line of
        None \<Rightarrow> None
      | Some (label, rest) \<Rightarrow> Some (dropWhile label_class rest))"

definition flip_role :: "string \<Rightarrow> string" where
  "flip_role r = (if r = ''user'' then ''assistant'' else ''user'')"

text \<open>
  The state of the loop over the lines: \<^verbatim>\<open>messages\<close>, \<^verbatim>\<open>current_role\<close> and
  \<^verbatim>\<open>current_content\<close>. \<^verbatim>\<open>ChatMessage(role=None, ...)\<close> is refused by the validation
  of the model class.
\<close>

type_synonym parser_state = "ChatMessage list \<times> string option \<times> string list"

definition new_message :: "string option \<Rightarrow> string list \<Rightarrow> py_error + ChatMessage" where
  "new_message current_role current_content =
     (case current_role of
        None \<Rightarrow> Inl ValidationError
      | Some r \<Rightarrow> Inr \<lparr>role = r, content = strip (join [nl] current_content)\<rparr>)"

text \<open>Python's truth value of \<^verbatim>\<open>current_role\<close>: neither \<^verbatim>\<open>None\<close> nor empty.\<close>

definition role_set :: "string option \<Rightarrow> bool" where
  "role_set current_role = (case current_role of None \<Rightarrow> False | Some r \<Rightarrow> r \<noteq> [])"

text \<open>A line that is blank after \<^verbatim>\<open>strip\<close>; \<open>rest\<close> are the lines after it.\<close>

definition blank_line_step :: "string list \<Rightarrow> parser_state \<Rightarrow> py_error + parser_state" where
  "blank_line_step rest st =
     (case st of (messages, current_role, current_content) \<Rightarrow>
        let empty_count = length (filter (\<lambda>l. strip l = []) (take 3 rest))
        in if 2 \<le> empty_count \<and> current_content \<noteq> []
           then (case new_message current_role current_content of
                   Inl e \<Rightarrow> Inl e
                 | Inr m \<Rightarrow>
                     Inr (messages @ [m],
                          Some (if current_role = Some ''user'' then ''assistant'' else ''user''), []))
           else Inr st)"

text \<open>A line with text, already stripped.\<close>

definition text_line_step :: "string \<Rightarrow> parser_state \<Rightarrow> py_error + parser_state" where
  "text_line_step line st =
     (case st of (messages, current_role, current_content) \<Rightarrow>
        (case detect_role_change line of
           None \<Rightarrow>
             Inr (messages,
                  (if current_role = None then Some ''user'' else current_role),
                  current_content @ [line])
         | Some detected_role \<Rightarrow>
             let line' = (case role_prefix_match line of None \<Rightarrow> line | Some g \<Rightarrow> strip g)
             in if role_set current_role \<and> current_content \<noteq> []
                then (case new_message current_role current_content of
                        Inl e \<Rightarrow> Inl e
                      | Inr m \<Rightarrow> Inr (messages @ [m], Some detected_role, [line']))
                else Inr (messages, Some detected_role, current_content @ [line'])))"

fun generic_loop :: "string list \<Rightarrow> parser_state \<Rightarrow> py_error + parser_state" where
  "generic_loop [] st = Inr st"
| "generic_loop (raw # rest) st =
     (case (if strip raw = [] then blank_line_step rest st else text_line_step (strip raw) st) of
        Inl e \<Rightarrow> Inl e
      | Inr st' \<Rightarrow> generic_loop rest st')"

text \<open>
  The pass \<^verbatim>\<open># Validate message order\<close>: it walks the list from the second message on
  and compares each role with the role its predecessor has after its own update.
\<close>

fun repair_from :: "string \<Rightarrow> ChatMessage list \<Rightarrow> ChatMessage list" where
  "repair_from prev [] = []"
| "repair_from prev (m # ms) =
     (let m' = (if role m = prev then m\<lparr>role := flip_role (role m)\<rparr> else m)
      in m' # repair_from (role m') ms)"

definition validate_order :: "ChatMessage list \<Rightarrow> ChatMessage list" where
  "validate_order messages =
     (case messages of [] \<Rightarrow> [] | m # ms \<Rightarrow> m # repair_from (role m) ms)"

definition parse_generic_format :: "string \<Rightarrow> py_error + ChatMessage list" where
  "parse_generic_format content' =
     (case generic_loop (split_on nl content') ([], None, []) of
        Inl e \<Rightarrow> Inl e
      | Inr (messages, current_role, current_content) \<Rightarrow>
          (case (if role_set current_role \<and> current_content \<noteq> []
                 then (case new_message current_role current_content of
                         Inl e \<Rightarrow> Inl e | Inr m \<Rightarrow> Inr (messages @ [m]))
                 else Inr messages) of
             Inl e \<Rightarrow> Inl e
           | Inr stored \<Rightarrow>
               let repaired = validate_order stored
               in Inr (if repaired = [] then [\<lparr>role = ''user'', content = strip content'\<rparr>]
                       else repaired)))"

section \<open>Said strategy: \<^verbatim>\<open>ChatParser._parse_said_format\<close>\<close>

definition said_speakers :: "string list" where
  "said_speakers = [''You'', ''ChatGPT'', ''Claude'', ''Gemini'', ''Grok'', ''Bard'', ''AI'', ''Assistant'']"

text \<open>
  \<^verbatim>\<open>\s+said:\<close> at the start of the text: the whole run of whitespace, one character
  at least, then the literal; what follows the literal is returned.
\<close>

definition spaces_then_said :: "bool \<Rightarrow> string \<Rightarrow> string option" where
  "spaces_then_said ci s =
     (case s of
        [] \<Rightarrow> None
      | c # cs \<Rightarrow>
          if is_space c \<and> lit_match ci ''said:'' (dropWhile is_space cs)
          then Some (drop 5 (dropWhile is_space cs))
          else None)"

text \<open>
  \<^verbatim>\<open>(You|...|Assistant)\s+said:\<close> at the start of the text: the speaker matched and
  what follows the colon.
\<close>

fun said_marker :: "bool \<Rightarrow> string list \<Rightarrow> string \<Rightarrow> (string \<times> string) option" where
  "said_marker ci [] s = None"
| "said_marker ci (a # alts) s =
     (case (if lit_match ci a s then spaces_then_said ci (drop (length a) s) else None) of
        Some rest \<Rightarrow> Some (take (length a) s, rest)
      | None \<Rightarrow> said_marker ci alts s)"

text \<open>
  The lazy group \<^verbatim>\<open>(.*?)\<close> under \<^verbatim>\<open>re.DOTALL\<close> with its lookahead: the text up
  to the first position where a speaker marker starts or \<^verbatim>\<open>$\<close> holds (the end of
  the input, or a newline that ends it), and the input from that position on.
\<close>

fun said_text :: "string \<Rightarrow> string \<times> string" where
  "said_text [] = ([], [])"
| "said_text (c # cs) =
     (if said_marker False said_speakers (c # cs) \<noteq> None \<or> (c = nl \<and> cs = [])
      then ([], c # cs)
      else (c # fst (said_text cs), snd (said_text cs)))"

text \<open>
  \<^verbatim>\<open>re.findall(pattern, content, re.DOTALL)\<close>: the matches from left to right, each
  search resuming where the previous match ended.
\<close>

function said_findall :: "string \<Rightarrow> (string \<times> string) list" where
  "said_findall [] = []"
| "said_findall (c # cs) =
     (case said_marker False said_speakers (c # cs) of
        None \<Rightarrow> said_findall cs
      | Some (speaker, rest) \<Rightarrow> (speaker, fst (said_text rest)) # said_findall (snd (said_text rest)))"
  by pat_completeness auto
termination
proof (relation "measure length")
  show "wf (measure length)"
    by simp
next
  fix c :: char and cs :: string
  show "(cs, c # cs) \<in> measure length"
    by simp
next
  fix c :: char and cs :: string and x2 speaker rest
  assume m: "said_marker False said_speakers (c # cs) = Some x2" and x2: "(speaker, rest) = x2"
  have spaces: "length r < length s" if "spaces_then_said ci s = Some r" for ci s r
  proof -
    from that obtain d ds where s: "s = d # ds" and r: "r = drop 5 (dropWhile is_space ds)"
      by (cases s) (auto simp: spaces_then_said_def split: if_splits)
    have "length r \<le> length (dropWhile is_space ds)"
      by (simp add: r)
    also have "\<dots> \<le> length ds"
      by (rule length_dropWhile_le)
    finally show ?thesis
      by (simp add: s)
  qed
  have marker: "length r < length s" if "said_marker ci alts s = Some (sp, r)" for ci alts s sp r
    using that
  proof (induction alts)
    case Nil
    then show ?case by simp
  next
    case (Cons a alts)
    show ?case
    proof (cases "if lit_match ci a s then spaces_then_said ci (drop (length a) s) else None")
      case None
      with Cons show ?thesis by simp
    next
      case (Some r')
      with Cons.prems have "r' = r" by simp
      with Some have "spaces_then_said ci (drop (length a) s) = Some r"
        by (simp split: if_splits)
      then have "length r < length (drop (length a) s)"
        by (rule spaces)
      then show ?thesis by simp
    qed
  qed
  have tail_le: "length (snd (said_text s)) \<le> length s" for s
    by (induction s) (simp_all add: le_SucI)
  from m x2 have "length rest < length (c # cs)"
    using marker [of False said_speakers "c # cs" speaker rest] by simp
  with tail_le [of rest] show "(snd (said_text rest), c # cs) \<in> measure length"
    by simp
qed

definition lower :: "string \<Rightarrow> string" where
  "lower s = map lower_char s"

definition said_message :: "string \<times> string \<Rightarrow> ChatMessage" where
  "said_message match =
     \<lparr>role = (if lower (fst match) = ''you'' then ''user'' else ''assistant''),
      content = strip (snd match)\<rparr>"

text \<open>
  The first \<^verbatim>\<open>findall\<close> of the source is overwritten before it is read. A first line
  without speaker marker (case ignored) becomes a \<^verbatim>\<open>user\<close> message and is cut off.
  There is no pass over the roles here.
\<close>

definition parse_said_format :: "string \<Rightarrow> py_error + ChatMessage list" where
  "parse_said_format content' =
     (let lines = split_on nl (strip content');
          first_line = (case lines of [] \<Rightarrow> [] | l # _ \<Rightarrow> strip l);
          unlabelled = (said_marker True said_speakers first_line = None);
          leading = (if unlabelled then [\<lparr>role = ''user'', content = first_line\<rparr>] else []);
          content'' = (if unlabelled then join [nl] (drop 1 lines) else content');
          found = leading @ map said_message (said_findall content'')
      in if found \<noteq> [] then Inr found else parse_generic_format content'')"

section \<open>Format detection and \<^verbatim>\<open>ChatParser.parse\<close>\<close>

text \<open>\<^verbatim>\<open>re.search\<close> of a pattern that is tried at every position of the text.\<close>

fun search :: "(string \<Rightarrow> bool) \<Rightarrow> string \<Rightarrow> bool" where
  "search at [] = at []"
| "search at (c # cs) = (at (c # cs) \<or> search at cs)"

text \<open>
  \<^verbatim>\<open>(#\s+\w+\s*\n+[\s\S]*?)(?=#\s+\w+|$)\<close> at the start of the text: a hash sign, a run
  of whitespace, a run of word characters, and a run of whitespace that holds a newline;
  the lazy rest and its lookahead then always succeed at the end of the input.
\<close>

definition openai_header :: "string \<Rightarrow> bool" where
  "openai_header s =
     (case s of
        [] \<Rightarrow> False
      | c # cs \<Rightarrow>
          c = CHR ''#'' \<and> takeWhile is_space cs \<noteq> [] \<and>
          takeWhile is_word (dropWhile is_space cs) \<noteq> [] \<and>
          nl \<in> set (takeWhile is_space (dropWhile is_word (dropWhile is_space cs))))"

text \<open>\<^verbatim>\<open>(User|Human|Person|Customer|AI|Bot|Assistant|System):\s\<close> at the start of the text.\<close>

definition conversation_label :: "string \<Rightarrow> bool" where
  "conversation_label s =
     (alt_then_class False
        [''User:'', ''Human:'', ''Person:'', ''Customer:'', ''AI:'', ''Bot:'', ''Assistant:'', ''System:'']
        is_space s \<noteq> None)"

text \<open>
  The outcome of \<^verbatim>\<open>json.loads\<close> of the standard library on a text: it returns a value,
  it raises \<^verbatim>\<open>JSONDecodeError\<close>, or it raises another error (\<^verbatim>\<open>RecursionError\<close> on
  deeply nested brackets, \<^verbatim>\<open>ValueError\<close> on an integer literal beyond the digit limit).
  The function itself is the parameter \<open>json_loads\<close>.
\<close>

datatype json_result = Loaded | JSONDecodeError | Raised py_error

text \<open>
  The test \<^verbatim>\<open>content.strip().startswith("{") or content.strip().startswith("[")\<close> that
  guards the call of \<^verbatim>\<open>json.loads\<close>.
\<close>

definition json_candidate :: "string \<Rightarrow> bool" where
  "json_candidate content' =
     (startswith (strip content') ''{'' \<or> startswith (strip content') ''['')"

text \<open>
  \<^verbatim>\<open>_detect_format\<close>. Only \<^verbatim>\<open>JSONDecodeError\<close> is caught around \<^verbatim>\<open>json.loads\<close>;
  any other error leaves the method.
\<close>

definition detect_format :: "(string \<Rightarrow> json_result) \<Rightarrow> string \<Rightarrow> py_error + string" where
  "detect_format json_loads content' =
     (let by_patterns =
            (if search (\<lambda>s. said_marker True said_speakers s \<noteq> None) content' then ''said_format''
             else if search openai_header content' then ''openai_web''
             else if search conversation_label content' then ''conversation''
             else ''generic'')
      in if json_candidate content'
         then (case json_loads content' of
                 Loaded \<Rightarrow> Inr ''json''
               | JSONDecodeError \<Rightarrow> Inr by_patterns
               | Raised e \<Rightarrow> Inl e)
         else Inr by_patterns)"

text \<open>\<^verbatim>\<open>specified_format if specified_format else self._detect_format(content)\<close>.\<close>

definition format_to_use ::
  "(string \<Rightarrow> json_result) \<Rightarrow> string \<Rightarrow> string option \<Rightarrow> py_error + string" where
  "format_to_use json_loads content' specified_format =
     (case specified_format of
        None \<Rightarrow> detect_format json_loads content'
      | Some f \<Rightarrow> if f \<noteq> [] then Inr f else detect_format json_loads content')"

record ParsedChat =
  messages :: "ChatMessage list"
  format_detected :: string
  token_count :: int
  message_count :: int
  raw_content :: string

text \<open>
  \<^verbatim>\<open>parse\<close>. The token estimator \<^verbatim>\<open>estimate_tokens\<close> is a collaborator outside the
  parser and a parameter here; it returns an integer for every text (it catches the errors
  of its tokenizer and falls back to a count of words and characters).
\<close>

definition parse ::
  "(string \<Rightarrow> json_result) \<Rightarrow> (string \<Rightarrow> int) \<Rightarrow> string \<Rightarrow> string option
     \<Rightarrow> py_error + ParsedChat" where
  "parse json_loads estimate_tokens content' specified_format =
     (case format_to_use json_loads content' specified_format of
        Inl e \<Rightarrow> Inl e
      | Inr fmt \<Rightarrow>
          (case (if fmt = ''said_format'' then parse_said_format content'
                 else parse_generic_format content') of
             Inl e \<Rightarrow> Inl e
           | Inr found \<Rightarrow>
               Inr \<lparr>messages = found, format_detected = fmt,
                    token_count = estimate_tokens content',
                    message_count = int (length found), raw_content = content'\<rparr>))"


definition json_never :: "string \<Rightarrow> json_result" where
  "json_never s = JSONDecodeError"


definition count_chars :: "string \<Rightarrow> int" where
  "count_chars s = int (length s)"

definition two_assistants :: string where
  "two_assistants = ''ChatGPT said: a'' @ [nl] @ ''Claude said: b''"

definition said_sample :: string where
  "said_sample = ''You said: Hi'' @ [nl] @ ''ChatGPT said: Hello''"

section \<open>Map stage of \<^verbatim>\<open>OllamaProcessor\<close>\<close>

text \<open>\<^verbatim>\<open>str(k)\<close> of an integer, in decimal.\<close>

function digits :: "nat \<Rightarrow> string" where
  "digits n =
     (if n < 10 then [char_of (48 + n)] else digits (n div 10) @ [char_of (48 + n mod 10)])"
  by pat_completeness auto
termination
  by (relation "measure (\<lambda>n. n)") auto

declare digits.simps [simp del]

definition str_int :: "int \<Rightarrow> string" where
  "str_int k = (if k < 0 then CHR ''-'' # digits (nat (- k)) else digits (nat k))"

text \<open>\<^verbatim>\<open>xs[i]\<close> for an integer index: negative indices count from the end.\<close>

definition py_index :: "'a list \<Rightarrow> int \<Rightarrow> py_error + 'a" where
  "py_index xs i =
     (if 0 \<le> i \<and> i < int (length xs) then Inr (xs ! nat i)
      else if i < 0 \<and> 0 \<le> i + int (length xs) then Inr (xs ! nat (i + int (length xs)))
      else Inl IndexError)"

text \<open>\<^verbatim>\<open>_format_messages\<close>.\<close>

definition format_message :: "ChatMessage \<Rightarrow> string" where
  "format_message msg =
     (if role msg = ''user'' then ''User'' else ''Assistant'') @ '': '' @ content msg"

definition format_messages :: "ChatMessage list \<Rightarrow> string" where
  "format_messages msgs = join [nl, nl] (map format_message msgs)"

text \<open>The excerpt of a neighbouring message: its first 50 characters.\<close>

definition topic_of :: "string \<Rightarrow> string" where
  "topic_of c = (if 50 < length c then take 50 c @ ''...'' else c)"

text \<open>
  \<^verbatim>\<open>_create_context_description\<close>. The neighbouring chunks are read by index, which
  raises \<^verbatim>\<open>IndexError\<close> out of range.
\<close>

definition context_head :: "chunk_meta \<Rightarrow> string" where
  "context_head meta =
     ''This is part '' @ str_int (index meta + 1) @ '' of '' @ str_int (total meta) @
     '' of the conversation. ''"

definition context_before :: "int \<Rightarrow> ChatMessage list list \<Rightarrow> chunk_meta \<Rightarrow> py_error + string" where
  "context_before chunk_idx chunks meta =
     (if is_first meta then Inr ''This is the beginning of the conversation. ''
      else case py_index chunks (chunk_idx - 1) of
             Inl e \<Rightarrow> Inl e
           | Inr prev_chunk \<Rightarrow>
               (case rev prev_chunk of
                  [] \<Rightarrow> Inr []
                | last_msg # _ \<Rightarrow>
                    Inr (''It follows a message where the '' @ role last_msg @
                         '' was discussing: '' @ [CHR 0x27] @ topic_of (content last_msg) @
                         [CHR 0x27] @ ''. '')))"

definition context_after :: "int \<Rightarrow> ChatMessage list list \<Rightarrow> chunk_meta \<Rightarrow> py_error + string" where
  "context_after chunk_idx chunks meta =
     (if is_last meta then Inr ''This is the end of the conversation being summarized.''
      else case py_index chunks (chunk_idx + 1) of
             Inl e \<Rightarrow> Inl e
           | Inr next_chunk \<Rightarrow>
               (case next_chunk of
                  [] \<Rightarrow> Inr []
                | first_msg # _ \<Rightarrow>
                    Inr (''It is followed by a message where the '' @ role first_msg @
                         '' begins discussing: '' @ [CHR 0x27] @ topic_of (content first_msg) @
                         [CHR 0x27] @ ''.'')))"

definition create_context_description ::
  "int \<Rightarrow> ChatMessage list list \<Rightarrow> chunk_meta \<Rightarrow> py_error + string" where
  "create_context_description chunk_idx chunks meta =
     (case context_before chunk_idx chunks meta of
        Inl e \<Rightarrow> Inl e
      | Inr before_text \<Rightarrow>
          (case context_after chunk_idx chunks meta of
             Inl e \<Rightarrow> Inl e
           | Inr after_text \<Rightarrow> Inr (context_head meta @ before_text @ after_text)))"

text \<open>
  The generation capability \<^verbatim>\<open>ollama_service.generate(prompt, options)\<close>: an arbitrary
  function of the request. \<open>Inr\<close> is the generated text, \<open>Inl\<close> an exception with the
  text \<^verbatim>\<open>str(e)\<close>. The options are the dictionary literal of the call.
\<close>

type_synonym gen_options = "(string \<times> string) list"

type_synonym generator = "string \<Rightarrow> gen_options \<Rightarrow> string + string"

definition gen_options_of :: "string \<Rightarrow> gen_options" where
  "gen_options_of limit =
     [(''temperature'', ''0.1''), (''num_predict'', limit), (''top_p'', ''0.8'')]"

text \<open>A text given line by line, every line ended by a newline.\<close>

definition text_of_lines :: "string list \<Rightarrow> string" where
  "text_of_lines ls = concat (map (\<lambda>l. l @ [nl]) ls)"

text \<open>The prompt of \<^verbatim>\<open>_format_and_summarize_with_context\<close>.\<close>

definition summarize_prompt :: "ChatMessage list \<Rightarrow> string \<Rightarrow> chunk_meta \<Rightarrow> string" where
  "summarize_prompt msgs context_desc meta =
     text_of_lines
       [''Summarize this conversation segment concisely while preserving all important information.'',
        '''',
        ''CONTEXT: '' @ context_desc,
        '''',
        ''You MUST preserve:'',
        ''1. All questions and their answers'',
        ''2. All technical details and implementation information'',
        ''3. All code snippets and code references'',
        ''4. Important decisions and requirements mentioned'',
        ''5. References to earlier or later parts of the conversation'',
        ''6. The flow and continuity of technical discussions'',
        '''',
        (if is_first meta
         then ''As this is the beginning of the conversation, include all context-setting information.''
         else ''''),
        (if is_last meta
         then ''As this is the end of the historical conversation, ensure you provide a proper lead-in to subsequent messages.''
         else ''''),
        '''',
        ''Focus on factual technical information rather than conversational elements.'',
        '''',
        ''Conversation segment:''] @
     format_messages msgs @ [nl, nl] @ ''Concise summary preserving all key information:''"

text \<open>
  \<^verbatim>\<open>_format_and_summarize_with_context\<close>: a failure of the generation is caught here,
  and the text returned then holds only the first 500 characters of the rendering.
\<close>

definition format_and_summarize_with_context ::
  "generator \<Rightarrow> ChatMessage list \<Rightarrow> string \<Rightarrow> chunk_meta \<Rightarrow> string" where
  "format_and_summarize_with_context gen msgs context_desc meta =
     (case gen (summarize_prompt msgs context_desc meta) (gen_options_of ''2048'') of
        Inr summary \<Rightarrow> summary
      | Inl e \<Rightarrow>
          ''[Summarization failed: '' @ e @ '']'' @ [nl, nl] @
          take 500 (format_messages msgs) @ ''...'')"

text \<open>
  \<^verbatim>\<open>_process_chunks_with_context\<close>. One task is submitted per pair of
  \<^verbatim>\<open>zip(chunks, metadata)\<close>; the context descriptions are built before, in the
  submitting thread. A future is modelled by the position at which it was submitted and
  the outcome of \<^verbatim>\<open>future.result()\<close> (\<open>Inl\<close>: the task raised).
\<close>

type_synonym future = "nat \<times> (string + string)"

fun submit_all ::
  "generator \<Rightarrow> ChatMessage list list \<Rightarrow> nat \<Rightarrow> (ChatMessage list \<times> chunk_meta) list
     \<Rightarrow> py_error + future list" where
  "submit_all gen chunks i [] = Inr []"
| "submit_all gen chunks i ((chunk, meta) # rest) =
     (case create_context_description (int i) chunks meta of
        Inl e \<Rightarrow> Inl e
      | Inr context_desc \<Rightarrow>
          (case submit_all gen chunks (Suc i) rest of
             Inl e \<Rightarrow> Inl e
           | Inr futures \<Rightarrow>
               Inr ((i, Inr (format_and_summarize_with_context gen chunk context_desc meta))
                    # futures)))"

text \<open>\<^verbatim>\<open>futures.index(future)\<close>: the first position holding the future.\<close>

fun index_of :: "'a \<Rightarrow> 'a list \<Rightarrow> nat option" where
  "index_of x [] = None"
| "index_of x (y # ys) =
     (if x = y then Some 0 else map_option Suc (index_of x ys))"

text \<open>
  The loop over \<^verbatim>\<open>as_completed(futures)\<close>, which yields the futures in the order in
  which they complete: \<open>completed\<close> is that sequence. A result is stored at the index of
  its future; a task that raised leaves a marker and the full rendering of its chunk.
\<close>

fun collect_results ::
  "future list \<Rightarrow> ChatMessage list list \<Rightarrow> future list \<Rightarrow> string option list
     \<Rightarrow> py_error + string option list" where
  "collect_results futures chunks [] results = Inr results"
| "collect_results futures chunks (f # completed) results =
     (case index_of f futures of
        None \<Rightarrow> Inl ValueError
      | Some idx \<Rightarrow>
          (case snd f of
             Inr summary \<Rightarrow>
               collect_results futures chunks completed (results[idx := Some summary])
           | Inl e \<Rightarrow>
               (case py_index chunks (int idx) of
                  Inl e' \<Rightarrow> Inl e'
                | Inr chunk \<Rightarrow>
                    collect_results futures chunks completed
                      (results[idx := Some (''[Summary failed for segment '' @ str_int (int idx + 1) @
                                            '']'' @ [nl, nl] @ format_messages chunk)]))))"

text \<open>
  \<open>order\<close> lists the positions of the futures in their order of completion.
  \<^verbatim>\<open>ThreadPoolExecutor\<close> refuses a number of workers below one.
\<close>

definition process_chunks_with_context ::
  "generator \<Rightarrow> ChatMessage list list \<Rightarrow> chunk_meta list \<Rightarrow> int \<Rightarrow> nat list
     \<Rightarrow> py_error + string list" where
  "process_chunks_with_context gen chunks metadata max_workers order =
     (if max_workers \<le> 0 then Inl ValueError
      else case submit_all gen chunks 0 (zip chunks metadata) of
             Inl e \<Rightarrow> Inl e
           | Inr futures \<Rightarrow>
               (case collect_results futures chunks (map (\<lambda>k. futures ! k) order)
                       (replicate (length chunks) None) of
                  Inl e \<Rightarrow> Inl e
                | Inr results \<Rightarrow> Inr (concat (map (\<lambda>r. case r of None \<Rightarrow> [] | Some s \<Rightarrow> [s]) results))))"

section \<open>Reduce stage of \<^verbatim>\<open>OllamaProcessor\<close>\<close>

definition combine_prompt :: "string list \<Rightarrow> bool \<Rightarrow> string" where
  "combine_prompt summaries is_final =
     text_of_lines
       [(if is_final then ''Create the final comprehensive summary''
         else ''Create an intermediate summary'') @
        '' from these conversation segment summaries.'',
        '''',
        ''Your task is to create a '' @
        (if is_final then ''complete, cohesive summary'' else ''partial summary'') @ '' that:'',
        ''1. Preserves ALL technical details from every section'',
        ''2. Keeps ALL code snippets intact exactly as written'',
        ''3. Maintains the chronological flow and narrative continuity'',
        ''4. Creates smooth transitions between topics'',
        ''5. Eliminates redundancy while preserving unique information'',
        ''6. '' @ (if is_final then ''Provides a complete picture of the entire conversation''
                  else ''Prepares for further summarization''),
        '''',
        (if is_final
         then ''The summary should be detailed enough to continue the conversation without the original content.''
         else ''''),
        '''',
        ''Segment summaries to combine:''] @
     join ([nl, nl] @ ''---'' @ [nl, nl]) summaries @ [nl, nl] @
     ''Combined summary preserving all essential information:''"

text \<open>\<^verbatim>\<open>_combine_summaries\<close>: a failure of the generation is caught here too.\<close>

definition combine_summaries :: "generator \<Rightarrow> string list \<Rightarrow> bool \<Rightarrow> string" where
  "combine_summaries gen summaries is_final =
     (case gen (combine_prompt summaries is_final)
             (gen_options_of (if is_final then ''3072'' else ''2048'')) of
        Inr combined \<Rightarrow> combined
      | Inl e \<Rightarrow>
          ''[Combination failed: '' @ e @ '']'' @ [nl, nl] @
          take 1000 (join ([nl, nl] @ ''---'' @ [nl, nl]) summaries) @ ''...'')"

text \<open>\<^verbatim>\<open>[xs[i:i+3] for i in range(0, len(xs), 3)]\<close>.\<close>

fun groups_of_three :: "'a list \<Rightarrow> 'a list list" where
  "groups_of_three [] = []"
| "groups_of_three [a] = [[a]]"
| "groups_of_three [a, b] = [[a, b]]"
| "groups_of_three (a # b # c # rest) = [a, b, c] # groups_of_three rest"

text \<open>
  \<^verbatim>\<open>_hierarchical_summarize\<close>, which chunks with the default window 8 and overlap 2.
  \<^verbatim>\<open>max_tokens\<close> is not used by the source.
\<close>

definition hierarchical_summarize ::
  "generator \<Rightarrow> ChatMessage list \<Rightarrow> int \<Rightarrow> int \<Rightarrow> nat list \<Rightarrow> py_error + string" where
  "hierarchical_summarize gen msgs max_tokens max_workers order =
     (case create_overlapping_chunks msgs 8 2 of
        Inl e \<Rightarrow> Inl e
      | Inr (chunks, chunk_metadata) \<Rightarrow>
          (case process_chunks_with_context gen chunks chunk_metadata max_workers order of
             Inl e \<Rightarrow> Inl e
           | Inr chunk_summaries \<Rightarrow>
               if length chunk_summaries \<le> 3
               then Inr (combine_summaries gen chunk_summaries True)
               else Inr (combine_summaries gen
                           (map (\<lambda>group. combine_summaries gen group False)
                              (groups_of_three chunk_summaries))
                           True)))"

section \<open>Code fidelity: \<^verbatim>\<open>_extract_code_blocks\<close> and \<^verbatim>\<open>_ensure_code_blocks_present\<close>\<close>

record code_block =
  language :: string
  code :: string

definition fence :: string where
  "fence = [CHR 0x60, CHR 0x60, CHR 0x60]"

text \<open>
  The lazy group \<^verbatim>\<open>(.*?)\<close> before the closing fence: the text up to the first fence
  and what follows that fence; no match when no fence follows.
\<close>

fun up_to_fence :: "string \<Rightarrow> (string \<times> string) option" where
  "up_to_fence [] = None"
| "up_to_fence (c # cs) =
     (if startswith (c # cs) fence then Some ([], drop 3 (c # cs))
      else map_option (\<lambda>found. (c # fst found, snd found)) (up_to_fence cs))"

text \<open>
  The pattern of fenced blocks at the start of the text: a fence, the longest run of word
  characters (the language), a newline, the block, a fence. The language, the block and
  the text after the closing fence are returned.
\<close>

definition fenced_at :: "string \<Rightarrow> ((string \<times> string) \<times> string) option" where
  "fenced_at s =
     (if startswith s fence
      then (case dropWhile is_word (drop 3 s) of
              [] \<Rightarrow> None
            | c # body \<Rightarrow>
                if c = nl
                then map_option (\<lambda>found. ((takeWhile is_word (drop 3 s), fst found), snd found))
                       (up_to_fence body)
                else None)
      else None)"

function fenced_findall :: "string \<Rightarrow> (string \<times> string) list" where
  "fenced_findall [] = []"
| "fenced_findall (c # cs) =
     (case fenced_at (c # cs) of
        None \<Rightarrow> fenced_findall cs
      | Some found \<Rightarrow> fst found # fenced_findall (snd found))"
  by pat_completeness auto
termination
proof (relation "measure length")
  show "wf (measure length)"
    by simp
next
  fix c :: char and cs :: string
  show "(cs, c # cs) \<in> measure length"
    by simp
next
  fix c :: char and cs :: string and found
  assume at: "fenced_at (c # cs) = Some found"
  have closing: "length r \<le> length s" if "up_to_fence s = Some (t, r)" for s t r
    using that
  proof (induction s arbitrary: t r)
    case Nil
    then show ?case by simp
  next
    case (Cons d ds)
    show ?case
    proof (cases "startswith (d # ds) fence")
      case True
      with Cons.prems show ?thesis by auto
    next
      case False
      with Cons.prems obtain t' where "up_to_fence ds = Some (t', r)"
        by auto
      then have "length r \<le> length ds"
        by (rule Cons.IH)
      then show ?thesis by simp
    qed
  qed
  have after: "length r < length s" if "fenced_at s = Some (m, r)" for s m r
  proof (cases "dropWhile is_word (drop 3 s)")
    case Nil
    from that show ?thesis
      unfolding fenced_at_def Nil by (simp split: if_splits)
  next
    case (Cons d body)
    from that have "map_option (\<lambda>f. ((takeWhile is_word (drop 3 s), fst f), snd f))
                      (up_to_fence body) = Some (m, r)"
      unfolding fenced_at_def Cons by (simp split: if_splits)
    then obtain t where "up_to_fence body = Some (t, r)"
      by (cases "up_to_fence body") auto
    then have "length r \<le> length body"
      by (rule closing)
    also have "\<dots> < length (dropWhile is_word (drop 3 s))"
      by (simp add: Cons)
    also have "\<dots> \<le> length (drop 3 s)"
      by (rule length_dropWhile_le)
    also have "\<dots> \<le> length s"
      by simp
    finally show ?thesis .
  qed
  from at have "fenced_at (c # cs) = Some (fst found, snd found)"
    by simp
  then have "length (snd found) < length (c # cs)"
    by (rule after)
  then show "(snd found, c # cs) \<in> measure length"
    by simp
qed

text \<open>
  The pattern of inline code at the start of the text: a backquote, three characters or
  more that are neither backquote nor newline, a backquote.
\<close>

definition inline_char :: "char \<Rightarrow> bool" where
  "inline_char c = (c \<noteq> CHR 0x60 \<and> c \<noteq> nl)"

definition inline_at :: "string \<Rightarrow> (string \<times> string) option" where
  "inline_at s =
     (case s of
        [] \<Rightarrow> None
      | c # cs \<Rightarrow>
          if c = CHR 0x60 \<and> 3 \<le> length (takeWhile inline_char cs) \<and>
             startswith (dropWhile inline_char cs) [CHR 0x60]
          then Some (takeWhile inline_char cs, drop 1 (dropWhile inline_char cs))
          else None)"

function inline_findall :: "string \<Rightarrow> string list" where
  "inline_findall [] = []"
| "inline_findall (c # cs) =
     (case inline_at (c # cs) of
        None \<Rightarrow> inline_findall cs
      | Some found \<Rightarrow> fst found # inline_findall (snd found))"
  by pat_completeness auto
termination
proof (relation "measure length")
  show "wf (measure length)"
    by simp
next
  fix c :: char and cs :: string
  show "(cs, c # cs) \<in> measure length"
    by simp
next
  fix c :: char and cs :: string and found
  assume "inline_at (c # cs) = Some found"
  then have "snd found = drop 1 (dropWhile inline_char cs)"
    by (auto simp: inline_at_def split: if_splits)
  moreover have "length (dropWhile inline_char cs) \<le> length cs"
    by (rule length_dropWhile_le)
  ultimately show "(snd found, c # cs) \<in> measure length"
    by simp
qed

text \<open>
  \<^verbatim>\<open>re.search(r"[=(){}\[\]<>]|\w+\(", match)\<close>: a character of the class anywhere,
  or word characters followed by an opening parenthesis.
\<close>

definition looks_like_code :: "string \<Rightarrow> bool" where
  "looks_like_code m =
     (list_ex (\<lambda>c. c \<in> set ''=(){}[]<>'') m \<or>
      search (\<lambda>s. takeWhile is_word s \<noteq> [] \<and> startswith (dropWhile is_word s) ''('') m)"

definition blocks_of_content :: "string \<Rightarrow> code_block list" where
  "blocks_of_content text =
     map (\<lambda>found. \<lparr>language = (if strip (fst found) \<noteq> [] then strip (fst found) else ''text''),
                    code = strip (snd found)\<rparr>)
       (filter (\<lambda>found. strip (snd found) \<noteq> []) (fenced_findall text)) @
     (if CHR 0x60 \<in> set text
      then map (\<lambda>m. \<lparr>language = ''text'', code = strip m\<rparr>)
             (filter (\<lambda>m. looks_like_code m \<and> strip m \<noteq> []) (inline_findall text))
      else [])"

definition extract_code_blocks :: "ChatMessage list \<Rightarrow> code_block list" where
  "extract_code_blocks msgs = concat (map (\<lambda>msg. blocks_of_content (content msg)) msgs)"

text \<open>\<^verbatim>\<open>re.sub(r'\s+', ' ', s).strip()\<close>: every run of whitespace becomes one space.\<close>

fun collapse_ws :: "string \<Rightarrow> string" where
  "collapse_ws [] = []"
| "collapse_ws [c] = [if is_space c then CHR '' '' else c]"
| "collapse_ws (c # d # cs) =
     (if is_space c then (if is_space d then collapse_ws (d # cs) else CHR '' '' # collapse_ws (d # cs))
      else c # collapse_ws (d # cs))"

definition normalize_ws :: "string \<Rightarrow> string" where
  "normalize_ws s = strip (collapse_ws s)"

text \<open>
  The test of the loop over the blocks: whether a block is put on \<^verbatim>\<open>missing_blocks\<close>.
  A block of more than two lines counts as present as soon as its first or its last line
  (stripped) occurs in the summary, or is empty.
\<close>

definition block_missing :: "string \<Rightarrow> code_block \<Rightarrow> bool" where
  "block_missing summary block =
     (if length (code block) < 20 then False
      else if contains (normalize_ws summary) (normalize_ws (code block)) then False
      else if 2 < length (split_on nl (code block))
        then (case (split_on nl (code block), rev (split_on nl (code block))) of
                (first # _, final # _) \<Rightarrow>
                  strip first \<noteq> [] \<and> strip final \<noteq> [] \<and>
                  \<not> contains summary (strip first) \<and> \<not> contains summary (strip final)
              | _ \<Rightarrow> False)
        else True)"

definition render_block :: "code_block \<Rightarrow> string" where
  "render_block block =
     (if language block \<noteq> [] \<and> language block \<noteq> ''text''
      then fence @ language block @ [nl] @ code block @ [nl] @ fence @ [nl, nl]
      else fence @ [nl] @ code block @ [nl] @ fence @ [nl, nl])"

definition fidelity_header :: string where
  "fidelity_header =
     [nl, nl] @ ''## Important Code Blocks'' @ [nl, nl] @
     ''The following code snippets from the conversation must be preserved:'' @ [nl, nl]"

definition ensure_code_blocks_present :: "string \<Rightarrow> code_block list \<Rightarrow> string" where
  "ensure_code_blocks_present summary code_blocks =
     (if code_blocks = [] then summary
      else if filter (block_missing summary) code_blocks \<noteq> []
        then summary @ fidelity_header @
             concat (map render_block (filter (block_missing summary) code_blocks))
        else summary)"

section \<open>\<^verbatim>\<open>OllamaProcessor.process_conversation\<close>\<close>

text \<open>
  The method \<^verbatim>\<open>_format_and_summarize\<close> that the branch for at most 12 historical
  messages calls is defined nowhere in the class: the attribute lookup raises
  \<^verbatim>\<open>AttributeError\<close>.
\<close>

definition missing_method :: py_error where
  "missing_method =
     AttributeError
       ([CHR 0x27] @ ''OllamaProcessor'' @ [CHR 0x27] @ '' object has no attribute '' @
        [CHR 0x27] @ ''_format_and_summarize'' @ [CHR 0x27])"

definition process_conversation ::
  "generator \<Rightarrow> ChatMessage list \<Rightarrow> int \<Rightarrow> int \<Rightarrow> int \<Rightarrow> nat list
     \<Rightarrow> py_error + string \<times> ChatMessage list" where
  "process_conversation gen msgs max_tokens max_workers preserve_recent order =
     (if int (length msgs) \<le> preserve_recent then Inr ([], msgs)
      else
        let split_index = nat (max (int (length msgs) - preserve_recent) 1);
            historical = take split_index msgs;
            recent = drop split_index msgs;
            code_blocks = extract_code_blocks historical
        in case (if length historical \<le> 12 then Inl missing_method
                 else hierarchical_summarize gen historical max_tokens max_workers order) of
             Inl e \<Rightarrow> Inl e
           | Inr summarized \<Rightarrow> Inr (ensure_code_blocks_present summarized code_blocks, recent))"

section \<open>Prompt assembly: \<^verbatim>\<open>create_summary_prompt\<close>\<close>








text \<open>
  The words of the specification on the sentinel labels: a closed set of families of
  target models, recognised by prefix, each with the label that opens the prompt and the
  label that closes it; a model of no family gets no label.
\<close>

datatype model_family = Gpt | Claude | Gemini | Unrecognised




section \<open>Concrete inputs\<close>


definition gen_ab :: generator where
  "gen_ab prompt options = Inr ''ab''"


definition sample_code :: string where
  "sample_code = ''ab'' @ [nl] @ ''cdefghijklmnopqrstu'' @ [nl] @ ''yz''"

definition code_turn :: ChatMessage where
  "code_turn = \<lparr>role = ''assistant'', content = fence @ ''py'' @ [nl] @ sample_code @ [nl] @ fence\<rparr>"

section \<open>Predicates of the properties\<close>

text \<open>
  The two roles the generic strategy assigns, the invariant of its loop (no text is
  buffered before a role is set, and every role is one of the two), and strict
  alternation of the roles of adjacent messages.
\<close>

definition known_role :: "string \<Rightarrow> bool" where
  "known_role r = (r = ''user'' \<or> r = ''assistant'')"

definition state_ok :: "parser_state \<Rightarrow> bool" where
  "state_ok st =
     (case st of (stored, current_role, current_content) \<Rightarrow>
        list_all (\<lambda>m. known_role (role m)) stored \<and>
        (case current_role of None \<Rightarrow> current_content = [] | Some r \<Rightarrow> known_role r))"

fun alternating :: "ChatMessage list \<Rightarrow> bool" where
  "alternating [] = True"
| "alternating [m] = True"
| "alternating (m # n # ms) = (role m \<noteq> role n \<and> alternating (n # ms))"


text \<open>A transcript with explicit labels, for the concrete instances below.\<close>

definition labelled_sample :: string where
  "labelled_sample = ''User: hi'' @ [nl] @ ''AI: hello''"

text \<open>
  A transcript of \<open>n\<close> alternating turns, the \<open>k\<close>-th one holding \<open>k\<close> letters, for the
  concrete instances below.
\<close>

definition sample_turn :: "nat \<Rightarrow> ChatMessage" where
  "sample_turn k =
     \<lparr>role = (if even k then ''user'' else ''assistant''), content = replicate k (CHR ''x'')\<rparr>"

definition sample_turns :: "nat \<Rightarrow> ChatMessage list" where
  "sample_turns n = map sample_turn [0..<n]"


definition two_chunks :: "ChatMessage list list" where
  "two_chunks = [[sample_turn 0], [sample_turn 1]]"

definition two_metadata :: "chunk_meta list" where
  "two_metadata = [\<lparr>index = 0, total = 2, is_first = True, is_last = False\<rparr>,
                   \<lparr>index = 1, total = 2, is_first = False, is_last = True\<rparr>]"

definition gen_first_only :: generator where
  "gen_first_only prompt options =
     (if contains prompt ''This is part 1 of'' then Inr ''first'' else Inl ''down'')"

text \<open>The context description of chunk \<open>i\<close>, where it is built.\<close>

definition context_of :: "ChatMessage list list \<Rightarrow> chunk_meta list \<Rightarrow> nat \<Rightarrow> string" where
  "context_of chunks metadata i =
     (case create_context_description (int i) chunks (metadata ! i) of
        Inl e \<Rightarrow> [] | Inr c \<Rightarrow> c)"

text \<open>The result of the task of chunk \<open>i\<close>, given the context descriptions.\<close>

definition chunk_summary ::
  "generator \<Rightarrow> ChatMessage list list \<Rightarrow> chunk_meta list \<Rightarrow> (nat \<Rightarrow> string) \<Rightarrow> nat \<Rightarrow> string" where
  "chunk_summary gen chunks metadata ctx i =
     format_and_summarize_with_context gen (chunks ! i) (ctx i) (metadata ! i)"

section \<open>Properties of the chunker\<close>

lemma length_sample_turns: "length (sample_turns n) = n"
  by (simp add: sample_turns_def)

text \<open>
  Claim C5. For 20 historical turns, window 8 and overlap 2, the claim expects three
  chunks holding exactly the turns 0-7, 6-13 and 12-19. The loop of the source visits the
  start indices 0, 6, 12 and 18: the window at 12 already reaches the end, and the window
  at 18 (two turns, fewer than half a window) is merged into it. The chunker therefore
  returns three chunks with ordinals 0, 1, 2, only the last marked \<^verbatim>\<open>is_last\<close>, but
  the last chunk holds the turns 12-19 followed by a second copy of the turns 18 and 19.
\<close>

theorem chunks_of_20_turns:
  "length ms = 20 \<Longrightarrow>
   create_overlapping_chunks ms 8 2 =
     Inr ([take 8 ms, take 8 (drop 6 ms), drop 12 ms @ drop 18 ms],
          [\<lparr>index = 0, total = 4, is_first = True, is_last = False\<rparr>,
           \<lparr>index = 1, total = 4, is_first = False, is_last = False\<rparr>,
           \<lparr>index = 2, total = 4, is_first = False, is_last = True\<rparr>])"
  by (simp add: create_overlapping_chunks_def chunk_step_def py_slice_def slice_bound_def Let_def)

theorem chunks_of_20_turns_witness:
  "length (sample_turns 20) = 20 \<and>
   create_overlapping_chunks (sample_turns 20) 8 2 =
     Inr ([take 8 (sample_turns 20), take 8 (drop 6 (sample_turns 20)),
           drop 12 (sample_turns 20) @ drop 18 (sample_turns 20)],
          [\<lparr>index = 0, total = 4, is_first = True, is_last = False\<rparr>,
           \<lparr>index = 1, total = 4, is_first = False, is_last = False\<rparr>,
           \<lparr>index = 2, total = 4, is_first = False, is_last = True\<rparr>])"
  using chunks_of_20_turns [of "sample_turns 20"] by (simp add: length_sample_turns)

text \<open>
  Claim C4. For 9 historical turns the chunker returns a single chunk: the window at 6
  holds three turns and is merged into the first chunk, so the turns 6 and 7 occur twice
  in this one chunk, not in two adjacent chunks, and the chunk is not a contiguous range
  of the transcript.
\<close>

theorem chunks_of_9_turns:
  "length ms = 9 \<Longrightarrow>
   create_overlapping_chunks ms 8 2 =
     Inr ([take 8 ms @ drop 6 ms],
          [\<lparr>index = 0, total = 2, is_first = True, is_last = True\<rparr>])"
  by (simp add: create_overlapping_chunks_def chunk_step_def py_slice_def slice_bound_def Let_def)

theorem chunks_of_9_turns_witness:
  "length (sample_turns 9) = 9 \<and>
   create_overlapping_chunks (sample_turns 9) 8 2 =
     Inr ([take 8 (sample_turns 9) @ drop 6 (sample_turns 9)],
          [\<lparr>index = 0, total = 2, is_first = True, is_last = True\<rparr>])"
  using chunks_of_9_turns [of "sample_turns 9"] by (simp add: length_sample_turns)

section \<open>Properties of the generic strategy\<close>

lemma detect_known: "detect_role_change line = Some r \<Longrightarrow> known_role r"
  by (auto simp: detect_role_change_def known_role_def split: if_splits)

lemma flip_known: "known_role (flip_role r)"
  by (simp add: flip_role_def known_role_def)

lemma flip_differs: "flip_role r \<noteq> r"
  by (auto simp: flip_role_def)

lemma blank_ok:
  assumes "state_ok st"
  shows "\<exists>st'. blank_line_step rest st = Inr st' \<and> state_ok st'"
proof -
  obtain ms cr cc where st: "st = (ms, cr, cc)" by (cases st) auto
  show ?thesis
  proof (cases cr)
    case None
    with assms st show ?thesis
      by (simp add: blank_line_step_def state_ok_def Let_def)
  next
    case (Some r)
    with assms st show ?thesis
      by (simp add: blank_line_step_def state_ok_def Let_def new_message_def known_role_def)
  qed
qed

lemma text_ok:
  assumes "state_ok st"
  shows "\<exists>st'. text_line_step line st = Inr st' \<and> state_ok st'"
proof -
  obtain ms cr cc where st: "st = (ms, cr, cc)" by (cases st) auto
  show ?thesis
  proof (cases "detect_role_change line")
    case None
    with assms st show ?thesis
      by (cases cr) (simp_all add: text_line_step_def state_ok_def known_role_def)
  next
    case (Some d)
    then have d: "known_role d" by (rule detect_known)
    show ?thesis
    proof (cases cr)
      case None
      with assms st Some d show ?thesis
        by (simp add: text_line_step_def state_ok_def role_set_def Let_def)
    next
      case r: (Some r)
      with assms st Some d show ?thesis
        by (simp add: text_line_step_def state_ok_def role_set_def Let_def new_message_def)
    qed
  qed
qed

lemma loop_ok: "state_ok st \<Longrightarrow> \<exists>st'. generic_loop ls st = Inr st' \<and> state_ok st'"
proof (induction ls arbitrary: st)
  case Nil
  then show ?case by simp
next
  case (Cons raw rest)
  show ?case
  proof (cases "strip raw = []")
    case True
    from blank_ok [OF Cons.prems, of rest] obtain st1
      where s1: "blank_line_step rest st = Inr st1" "state_ok st1" by blast
    from Cons.IH [OF s1(2)] True s1(1) show ?thesis by simp
  next
    case False
    from text_ok [OF Cons.prems, of "strip raw"] obtain st1
      where s1: "text_line_step (strip raw) st = Inr st1" "state_ok st1" by blast
    from Cons.IH [OF s1(2)] False s1(1) show ?thesis by simp
  qed
qed

lemma repair_known:
  "list_all (\<lambda>m. known_role (role m)) ms \<Longrightarrow> list_all (\<lambda>m. known_role (role m)) (repair_from p ms)"
  by (induction ms arbitrary: p) (simp_all add: Let_def flip_known)

lemma validate_known:
  "list_all (\<lambda>m. known_role (role m)) ms \<Longrightarrow> list_all (\<lambda>m. known_role (role m)) (validate_order ms)"
  by (cases ms) (simp_all add: validate_order_def repair_known)

lemma repair_alternating: "role m = p \<Longrightarrow> alternating (m # repair_from p ms)"
proof (induction ms arbitrary: m p)
  case Nil
  then show ?case by simp
next
  case (Cons n ms)
  define n' where "n' = (if role n = p then n\<lparr>role := flip_role (role n)\<rparr> else n)"
  have "role n' \<noteq> p"
    using flip_differs [of p] by (auto simp: n'_def)
  moreover have "alternating (n' # repair_from (role n') ms)"
    by (rule Cons.IH) simp
  ultimately show ?case
    using Cons.prems by (simp add: Let_def n'_def)
qed

lemma validate_alternating: "alternating (validate_order ms)"
  by (cases ms) (simp_all add: validate_order_def repair_alternating)

lemma alternating_nth:
  "alternating ms \<Longrightarrow> 1 \<le> i \<Longrightarrow> i < length ms \<Longrightarrow> role (ms ! i) \<noteq> role (ms ! (i - 1))"
proof (induction ms arbitrary: i rule: alternating.induct)
  case (3 m n ms)
  show ?case
  proof (cases i)
    case 0
    with 3 show ?thesis by simp
  next
    case (Suc j)
    show ?thesis
    proof (cases j)
      case 0
      with Suc 3 show ?thesis by auto
    next
      case (Suc k)
      from 3 have "alternating (n # ms)" by simp
      moreover have "1 \<le> j" "j < length (n # ms)"
        using Suc \<open>i = Suc j\<close> 3 by simp_all
      ultimately have "role ((n # ms) ! j) \<noteq> role ((n # ms) ! (j - 1))"
        by (rule "3.IH")
      with Suc \<open>i = Suc j\<close> show ?thesis by simp
    qed
  qed
qed simp_all

lemma generic_result:
  "\<exists>ms. parse_generic_format s = Inr ms \<and> ms \<noteq> [] \<and>
        list_all (\<lambda>m. known_role (role m)) ms \<and> alternating ms"
proof -
  have "state_ok ([], None, [])" by (simp add: state_ok_def)
  from loop_ok [OF this, of "split_on nl s"] obtain msgs cr cc
    where run: "generic_loop (split_on nl s) ([], None, []) = Inr (msgs, cr, cc)"
      and ok: "state_ok (msgs, cr, cc)" by (metis prod_cases3)
  define stored where "stored = (if role_set cr \<and> cc \<noteq> [] then msgs @ [\<lparr>role = the cr, content = strip (join [nl] cc)\<rparr>] else msgs)"
  have st: "(if role_set cr \<and> cc \<noteq> []
                 then (case new_message cr cc of
                         Inl e \<Rightarrow> Inl e | Inr m \<Rightarrow> Inr (msgs @ [m]))
                 else Inr msgs) = Inr stored"
    by (cases cr) (simp_all add: stored_def role_set_def new_message_def)
  have known: "list_all (\<lambda>m. known_role (role m)) stored"
    using ok by (cases cr) (simp_all add: stored_def state_ok_def role_set_def)
  show ?thesis
    unfolding parse_generic_format_def run
    using validate_known [OF known] validate_alternating [of stored]
    by (simp add: st Let_def known_role_def)
qed
lemma labelled_sample_generic:
  "parse_generic_format labelled_sample =
     Inr [\<lparr>role = ''user'', content = ''hi''\<rparr>, \<lparr>role = ''assistant'', content = ''hello''\<rparr>]"
  by code_simp

text \<open>
  Claim C10. For every input string the generic strategy returns a list of messages (it
  raises nothing), and each of its messages has the role \<^verbatim>\<open>user\<close> or the role
  \<^verbatim>\<open>assistant\<close>: the roles \<^verbatim>\<open>system\<close> and \<^verbatim>\<open>unknown\<close> never occur.
\<close>

theorem generic_roles_user_or_assistant:
  "\<exists>ms. parse_generic_format s = Inr ms \<and>
        (\<forall>m \<in> set ms. role m = ''user'' \<or> role m = ''assistant'')"
  using generic_result [of s] by (auto simp: list_all_iff known_role_def)

theorem generic_roles_user_or_assistant_witness:
  "parse_generic_format labelled_sample =
     Inr [\<lparr>role = ''user'', content = ''hi''\<rparr>, \<lparr>role = ''assistant'', content = ''hello''\<rparr>] \<and>
   (\<exists>ms. parse_generic_format labelled_sample = Inr ms \<and>
        list_all (\<lambda>m. role m = ''user'' \<or> role m = ''assistant'') ms)"
  using generic_roles_user_or_assistant [of labelled_sample] labelled_sample_generic
  by (simp add: list_all_iff)

section \<open>Properties of \<^verbatim>\<open>parse\<close>\<close>










lemma two_assistants_format: "detect_format json_never two_assistants = Inr ''said_format''"
  by code_simp

lemma two_assistants_said:
  "parse_said_format two_assistants =
     Inr [\<lparr>role = ''assistant'', content = ''a''\<rparr>, \<lparr>role = ''assistant'', content = ''b''\<rparr>]"
  by code_simp

lemma labelled_sample_format: "detect_format json_never labelled_sample = Inr ''conversation''"
  by code_simp



text \<open>
  Claim C3, as stated, at a transcript of two assistant speakers: the detected format is
  \<^verbatim>\<open>said_format\<close>, and \<^verbatim>\<open>parse\<close> returns two adjacent messages of the role
  \<^verbatim>\<open>assistant\<close>.
\<close>

theorem parse_two_assistants_not_alternating:
  "map_sum id messages (parse json_never count_chars two_assistants None) =
     Inr [\<lparr>role = ''assistant'', content = ''a''\<rparr>, \<lparr>role = ''assistant'', content = ''b''\<rparr>]"
  by (simp add: parse_def format_to_use_def two_assistants_format two_assistants_said)

text \<open>
  Claim C3, amended. Whenever a format is determined and it is not \<^verbatim>\<open>said_format\<close>, so
  that \<^verbatim>\<open>parse\<close> takes the generic strategy with its repair pass, \<^verbatim>\<open>parse\<close> returns
  and the roles of its messages alternate strictly: for every index \<open>i \<ge> 1\<close> the role of
  message \<open>i\<close> differs from the role of message \<open>i - 1\<close>.
\<close>

theorem parse_generic_alternates:
  assumes "format_to_use json_loads c sf = Inr fmt" and "fmt \<noteq> ''said_format''"
  shows "\<exists>pc. parse json_loads est c sf = Inr pc \<and>
          (\<forall>i. 1 \<le> i \<and> i < length (messages pc) \<longrightarrow>
                 role (messages pc ! i) \<noteq> role (messages pc ! (i - 1)))"
proof -
  from generic_result [of c] obtain ms
    where ms: "parse_generic_format c = Inr ms" "alternating ms" by blast
  from ms(2) have alt: "\<forall>i. 1 \<le> i \<and> i < length ms \<longrightarrow> role (ms ! i) \<noteq> role (ms ! (i - 1))"
    using alternating_nth by blast
  have "parse json_loads est c sf =
          Inr \<lparr>messages = ms, format_detected = fmt,
               token_count = est c, message_count = int (length ms), raw_content = c\<rparr>"
    unfolding parse_def using assms ms(1) by simp
  with alt show ?thesis
    by simp
qed

theorem parse_generic_alternates_witness:
  "format_to_use json_never labelled_sample None = Inr ''conversation'' \<and>
   ''conversation'' \<noteq> ''said_format'' \<and>
   map_sum id messages (parse json_never count_chars labelled_sample None) =
     Inr [\<lparr>role = ''user'', content = ''hi''\<rparr>, \<lparr>role = ''assistant'', content = ''hello''\<rparr>] \<and>
   (\<exists>pc. parse json_never count_chars labelled_sample None = Inr pc \<and>
         role (messages pc ! 1) \<noteq> role (messages pc ! 0))"
proof -
  have fmt: "format_to_use json_never labelled_sample None = Inr ''conversation''"
    by (simp add: format_to_use_def labelled_sample_format)
  have other: "''conversation'' \<noteq> ''said_format''"
    by simp
  have run: "map_sum id messages (parse json_never count_chars labelled_sample None) =
     Inr [\<lparr>role = ''user'', content = ''hi''\<rparr>, \<lparr>role = ''assistant'', content = ''hello''\<rparr>]"
    by (simp add: parse_def format_to_use_def labelled_sample_format labelled_sample_generic)
  from parse_generic_alternates [OF fmt other, of count_chars] obtain pc
    where pc: "parse json_never count_chars labelled_sample None = Inr pc"
      and alt: "\<forall>i. 1 \<le> i \<and> i < length (messages pc) \<longrightarrow>
                 role (messages pc ! i) \<noteq> role (messages pc ! (i - 1))"
    by blast
  from pc run have "length (messages pc) = 2"
    by simp
  with alt have "role (messages pc ! 1) \<noteq> role (messages pc ! 0)"
    by force
  with fmt other run pc show ?thesis
    by blast
qed




section \<open>Properties of \<^verbatim>\<open>process_conversation\<close> and of the prompt assembly\<close>

text \<open>
  Claim C1. The claim says that \<^verbatim>\<open>process_conversation\<close> never propagates an
  exception. Whenever there are more messages than \<^verbatim>\<open>preserve_recent\<close> and at most 12
  of them are historical, the source calls \<^verbatim>\<open>self._format_and_summarize\<close>, a method the
  class does not define, and the \<^verbatim>\<open>AttributeError\<close> reaches the caller, whatever the
  generation capability does.
\<close>

theorem small_history_raises:
  assumes "preserve_recent < int (length msgs)" and "int (length msgs) - preserve_recent \<le> 12"
  shows "process_conversation gen msgs max_tokens max_workers preserve_recent order =
           Inl missing_method"
proof -
  have "length (take (nat (max (int (length msgs) - preserve_recent) 1)) msgs) \<le> 12"
    using assms by simp
  with assms(1) show ?thesis
    by (simp add: process_conversation_def Let_def)
qed

theorem small_history_raises_witness:
  "3 < int (length (sample_turns 4)) \<and> int (length (sample_turns 4)) - 3 \<le> 12 \<and>
   process_conversation gen_ab (sample_turns 4) 4000 3 3 [0] = Inl missing_method"
  using small_history_raises [of 3 "sample_turns 4" gen_ab 4000 3 "[0]"]
  by (simp add: sample_turns_def)




section \<open>Properties of the map stage\<close>

lemma submit_all_shape:
  assumes "\<forall>k < length pairs.
             create_context_description (int (i + k)) chunks (snd (pairs ! k)) = Inr (ctx (i + k))"
  shows "submit_all gen chunks i pairs =
           Inr (map (\<lambda>k. (i + k, Inr (format_and_summarize_with_context gen (fst (pairs ! k))
                                          (ctx (i + k)) (snd (pairs ! k)))))
                  [0..<length pairs])"
  using assms
proof (induction pairs arbitrary: i)
  case Nil
  then show ?case by simp
next
  case (Cons p pairs)
  obtain chunk meta where p: "p = (chunk, meta)"
    by (cases p)
  from Cons.prems have here: "create_context_description (int i) chunks meta = Inr (ctx i)"
    using p by force
  have "\<forall>k < length pairs.
          create_context_description (int (Suc i + k)) chunks (snd (pairs ! k)) = Inr (ctx (Suc i + k))"
  proof (intro allI impI)
    fix k assume "k < length pairs"
    then have "Suc k < length (p # pairs)" by simp
    with Cons.prems have "create_context_description (int (i + Suc k)) chunks
                            (snd ((p # pairs) ! Suc k)) = Inr (ctx (i + Suc k))"
      by blast
    then show "create_context_description (int (Suc i + k)) chunks (snd (pairs ! k)) =
                 Inr (ctx (Suc i + k))"
      by simp
  qed
  then have rest: "submit_all gen chunks (Suc i) pairs =
           Inr (map (\<lambda>k. (Suc i + k, Inr (format_and_summarize_with_context gen (fst (pairs ! k))
                                          (ctx (Suc i + k)) (snd (pairs ! k)))))
                  [0..<length pairs])"
    by (rule Cons.IH)
  have "[0..<length (p # pairs)] = 0 # map Suc [0..<length pairs]"
    by (simp add: upt_conv_Cons map_Suc_upt del: upt_Suc)
  then show ?case
    using here rest p by (simp add: comp_def del: upt_Suc)
qed

lemma index_of_positions:
  assumes "k < n"
  shows "index_of (i + k, f (i + k)) (map (\<lambda>j. (i + j, f (i + j))) [0..<n]) = Some k"
  using assms
proof (induction n arbitrary: i k)
  case 0
  then show ?case by simp
next
  case (Suc n)
  have split: "map (\<lambda>j. (i + j, f (i + j))) [0..<Suc n] =
          (i, f i) # map (\<lambda>j. (Suc i + j, f (Suc i + j))) [0..<n]"
    by (simp add: upt_conv_Cons map_Suc_upt [symmetric] comp_def del: upt_Suc)
  show ?case
  proof (cases k)
    case 0
    then show ?thesis
      unfolding split by simp
  next
    case (Suc k')
    with Suc.prems have "k' < n" by simp
    then have "index_of (Suc i + k', f (Suc i + k'))
                 (map (\<lambda>j. (Suc i + j, f (Suc i + j))) [0..<n]) = Some k'"
      by (rule Suc.IH)
    then show ?thesis
      unfolding split using Suc by simp
  qed
qed

lemma collect_all_ok:
  assumes "\<forall>f \<in> set completed. \<exists>k s. index_of f futures = Some k \<and> snd f = Inr s"
  shows "collect_results futures chunks completed results =
           Inr (fold (\<lambda>f rs. rs[the (index_of f futures) := Some (projr (snd f))]) completed results)"
  using assms
proof (induction completed arbitrary: results)
  case Nil
  then show ?case by simp
next
  case (Cons f completed)
  from Cons.prems obtain k s where f: "index_of f futures = Some k" "snd f = Inr s"
    by auto
  from Cons.prems have "\<forall>f \<in> set completed. \<exists>k s. index_of f futures = Some k \<and> snd f = Inr s"
    by simp
  then show ?case
    using f by (simp add: Cons.IH)
qed

lemma fold_updates_nth:
  assumes "i < length rs"
  shows "fold (\<lambda>k rs. rs[k := Some (g k)]) order rs ! i =
           (if i \<in> set order then Some (g i) else rs ! i)"
  using assms
proof (induction order arbitrary: rs)
  case Nil
  then show ?case by simp
next
  case (Cons k order)
  have "i < length (rs[k := Some (g k)])"
    using Cons.prems by simp
  then have "fold (\<lambda>k rs. rs[k := Some (g k)]) order (rs[k := Some (g k)]) ! i =
           (if i \<in> set order then Some (g i) else rs[k := Some (g k)] ! i)"
    by (rule Cons.IH)
  then show ?case
    using Cons.prems by (auto simp: nth_list_update)
qed

lemma fold_updates_length:
  "length (fold (\<lambda>k rs. rs[k := Some (g k)]) order rs) = length rs"
  by (induction order arbitrary: rs) simp_all

lemma fold_updates_all:
  assumes "set order = {0..<n}"
  shows "fold (\<lambda>k rs. rs[k := Some (g k)]) order (replicate n None) = map (\<lambda>i. Some (g i)) [0..<n]"
proof (rule nth_equalityI)
  show "length (fold (\<lambda>k rs. rs[k := Some (g k)]) order (replicate n None)) =
          length (map (\<lambda>i. Some (g i)) [0..<n])"
    by (simp add: fold_updates_length)
next
  fix i assume "i < length (fold (\<lambda>k rs. rs[k := Some (g k)]) order (replicate n None))"
  then have i: "i < n"
    by (simp add: fold_updates_length)
  then have "fold (\<lambda>k rs. rs[k := Some (g k)]) order (replicate n None) ! i = Some (g i)"
    using assms by (simp add: fold_updates_nth)
  with i show "fold (\<lambda>k rs. rs[k := Some (g k)]) order (replicate n None) ! i =
                 map (\<lambda>i. Some (g i)) [0..<n] ! i"
    by simp
qed

lemma process_chunks_result:
  assumes workers: "0 < max_workers"
    and same: "length metadata = length chunks"
    and order: "set order = {0..<length chunks}"
    and ctx: "\<forall>i < length chunks.
                create_context_description (int i) chunks (metadata ! i) = Inr (ctx i)"
  shows "process_chunks_with_context gen chunks metadata max_workers order =
           Inr (map (chunk_summary gen chunks metadata ctx) [0..<length chunks])"
proof -
  define n where "n = length chunks"
  define g where "g = chunk_summary gen chunks metadata ctx"
  define futures :: "future list" where "futures = map (\<lambda>k. (k, Inr (g k))) [0..<n]"
  have len: "length (zip chunks metadata) = n"
    using same by (simp add: n_def)
  have "\<forall>k < length (zip chunks metadata).
          create_context_description (int (0 + k)) chunks (snd (zip chunks metadata ! k)) =
            Inr (ctx (0 + k))"
    using ctx same by (simp add: n_def)
  then have "submit_all gen chunks 0 (zip chunks metadata) =
           Inr (map (\<lambda>k. (0 + k, Inr (format_and_summarize_with_context gen
                                          (fst (zip chunks metadata ! k)) (ctx (0 + k))
                                          (snd (zip chunks metadata ! k)))))
                  [0..<length (zip chunks metadata)])"
    by (rule submit_all_shape)
  moreover have "map (\<lambda>k. (0 + k, Inr (format_and_summarize_with_context gen
                                          (fst (zip chunks metadata ! k)) (ctx (0 + k))
                                          (snd (zip chunks metadata ! k)))))
                  [0..<length (zip chunks metadata)] = futures"
    unfolding futures_def len using same
    by (intro map_cong) (simp_all add: g_def chunk_summary_def n_def)
  ultimately have submitted: "submit_all gen chunks 0 (zip chunks metadata) = Inr futures"
    by simp
  have at: "futures ! k = (k, Inr (g k))" if "k < n" for k
    using that by (simp add: futures_def)
  have idx: "index_of (futures ! k) futures = Some k" if "k < n" for k
    using index_of_positions [OF that, of 0 "\<lambda>j. Inr (g j)"] at [OF that]
    by (simp add: futures_def)
  have idx_pair: "index_of (k, Inr (g k)) futures = Some k" if "k < n" for k
    using idx [OF that] at [OF that] by simp
  have in_range: "k < n" if "k \<in> set order" for k
    using that order by (simp add: n_def)
  have "\<forall>f \<in> set (map (\<lambda>k. futures ! k) order).
          \<exists>k s. index_of f futures = Some k \<and> snd f = Inr s"
    using idx at in_range by auto
  then have "collect_results futures chunks (map (\<lambda>k. futures ! k) order) (replicate n None) =
           Inr (fold (\<lambda>f rs. rs[the (index_of f futures) := Some (projr (snd f))])
                  (map (\<lambda>k. futures ! k) order) (replicate n None))"
    by (rule collect_all_ok)
  also have "fold (\<lambda>f rs. rs[the (index_of f futures) := Some (projr (snd f))])
                  (map (\<lambda>k. futures ! k) order) (replicate n None) =
             fold (\<lambda>k rs. rs[k := Some (g k)]) order (replicate n None)"
    unfolding fold_map
    by (rule fold_cong) (simp_all add: idx_pair at in_range)
  also have "\<dots> = map (\<lambda>i. Some (g i)) [0..<n]"
    using order by (intro fold_updates_all) (simp add: n_def)
  finally have collected: "collect_results futures chunks (map (\<lambda>k. futures ! k) order)
                             (replicate n None) = Inr (map (\<lambda>i. Some (g i)) [0..<n])" .
  have "concat (map (\<lambda>r. case r of None \<Rightarrow> [] | Some s \<Rightarrow> [s]) (map (\<lambda>i. Some (g i)) xs)) =
          map g xs" for xs :: "nat list"
    by (induction xs) simp_all
  with workers submitted collected show ?thesis
    by (simp add: process_chunks_with_context_def n_def [symmetric] g_def)
qed

lemma two_chunks_context:
  "\<forall>i < length two_chunks.
     create_context_description (int i) two_chunks (two_metadata ! i) =
       Inr (context_of two_chunks two_metadata i)"
proof (intro allI impI)
  fix i assume "i < length two_chunks"
  then have "i = 0 \<or> i = 1"
    by (auto simp: two_chunks_def)
  then show "create_context_description (int i) two_chunks (two_metadata ! i) =
       Inr (context_of two_chunks two_metadata i)"
    by (auto simp: context_of_def create_context_description_def context_before_def
        context_after_def two_chunks_def two_metadata_def py_index_def)
qed

lemma first_prompt: "contains (summarize_prompt (two_chunks ! 0) (context_of two_chunks two_metadata 0) (two_metadata ! 0)) ''This is part 1 of''"
  by code_simp

lemma second_prompt: "\<not> contains (summarize_prompt (two_chunks ! 1) (context_of two_chunks two_metadata 1) (two_metadata ! 1)) ''This is part 1 of''"
  by code_simp

lemma second_rendering: "take 500 (format_messages (two_chunks ! 1)) = ''Assistant: x''"
  by code_simp

text \<open>
  Claim C6. Let the context descriptions of all chunks be built (no index out of range),
  the number of workers be positive, and \<open>order\<close> be any order in which the tasks
  complete, each task once. Then the list handed to the reduce phase holds, at the
  position of each chunk's ordinal, the result of that chunk's task: it is the list of
  the results by increasing ordinal, whatever the order of completion.
\<close>

theorem summaries_in_ordinal_order:
  assumes "0 < max_workers"
    and "length metadata = length chunks"
    and "distinct order" and "set order = {0..<length chunks}"
    and "\<forall>i < length chunks.
           create_context_description (int i) chunks (metadata ! i) = Inr (ctx i)"
  shows "process_chunks_with_context gen chunks metadata max_workers order =
           Inr (map (chunk_summary gen chunks metadata ctx) [0..<length chunks])"
  using assms(1,2,4,5) by (rule process_chunks_result)

theorem summaries_in_ordinal_order_witness:
  "(0::int) < 3 \<and> length two_metadata = length two_chunks \<and> distinct [1, 0::nat] \<and>
   set [1, 0::nat] = {0..<length two_chunks} \<and>
   process_chunks_with_context gen_first_only two_chunks two_metadata 3 [1, 0] =
     Inr [''first'', ''[Summarization failed: down]'' @ [nl, nl] @ ''Assistant: x'' @ ''...'']"
proof -
  have a: "(0::int) < 3" by simp
  have b: "length two_metadata = length two_chunks"
    by (simp add: two_metadata_def two_chunks_def)
  have c: "distinct [1, 0::nat]" by simp
  have d: "set [1, 0::nat] = {0..<length two_chunks}"
    by (auto simp: two_chunks_def)
  have len: "length two_chunks = 2"
    by (simp add: two_chunks_def)
  have "[0..<2] = [0, 1]"
    by (simp add: upt_conv_Cons)
  then have "process_chunks_with_context gen_first_only two_chunks two_metadata 3 [1, 0] =
     Inr [''first'', ''[Summarization failed: down]'' @ [nl, nl] @ ''Assistant: x'' @ ''...'']"
    using summaries_in_ordinal_order [OF a b c d two_chunks_context, of gen_first_only]
      first_prompt second_prompt second_rendering
    by (simp add: len chunk_summary_def format_and_summarize_with_context_def gen_first_only_def)
  with a b c d show ?thesis
    by blast
qed






end
